theory Spec2Isabelle
  imports Complex_Main "HOL-Library.AList"
begin

section \<open>Option objects\<close>

text \<open>
  The option objects of \<^verbatim>\<open>AMSynth.ts\<close> are plain JavaScript objects: an ordered list
  of keys with values, a value being a number, a string, \<^verbatim>\<open>undefined\<close> or a nested
  object. Numbers are modelled as reals: the literals \<^verbatim>\<open>0.01\<close> and \<^verbatim>\<open>0.5\<close> of the
  source stand for the decimal fractions they denote.
\<close>

datatype jsval = Undefined | Num real | Str string | Obj "(string \<times> jsval) list"

type_synonym jsobj = "(string \<times> jsval) list"

text \<open>\<^verbatim>\<open>obj[k]\<close>: the first binding of the key, \<^verbatim>\<open>undefined\<close> when there is none.\<close>

definition getProp :: "jsobj \<Rightarrow> string \<Rightarrow> jsval" where
  "getProp obj k = (case map_of obj k of Some v \<Rightarrow> v | None \<Rightarrow> Undefined)"


definition Object_keys :: "jsobj \<Rightarrow> string list" where
  "Object_keys obj = map fst obj"

text \<open>
  \<^verbatim>\<open>Object.assign(target, source)\<close>: every key of the source, in the source's order, is
  written into the target; a key the target has keeps its place, a new key goes last.
\<close>

fun Object_assign :: "jsobj \<Rightarrow> jsobj \<Rightarrow> jsobj" where
  "Object_assign target [] = target"
| "Object_assign target ((k, v) # source) = Object_assign (AList.update k v target) source"

section \<open>What the file imports\<close>

text \<open>
  \<^verbatim>\<open>AMSynth.getDefaults\<close> starts from the default tables of five classes the file
  imports (\<^verbatim>\<open>Monophonic\<close>, \<^verbatim>\<open>OmniOscillator\<close>, \<^verbatim>\<open>Source\<close>, \<^verbatim>\<open>Envelope\<close>,
  \<^verbatim>\<open>ToneAudioNode\<close>) and calls the helper \<^verbatim>\<open>omitFromObject\<close> of
  \<^verbatim>\<open>core/util/Defaults\<close>. None of them is defined in \<^verbatim>\<open>AMSynth.ts\<close>, so they are
  parameters of the model: what is proved of \<^verbatim>\<open>getDefaults\<close> holds for every table and
  every helper. \<^verbatim>\<open>Signal_defaultValue\<close> is the start value of a \<^verbatim>\<open>Signal\<close> built
  without one.
\<close>

record externals =
  Monophonic_getDefaults :: jsobj
  OmniOscillator_getDefaults :: jsobj
  Source_getDefaults :: jsobj
  Envelope_getDefaults :: jsobj
  ToneAudioNode_getDefaults :: jsobj
  omitFromObject :: "jsobj \<Rightarrow> string list \<Rightarrow> jsobj"
  Signal_defaultValue :: real

section \<open>\<^verbatim>\<open>AMSynth.getDefaults\<close>\<close>

text \<open>Lines 155 to 203 of \<^verbatim>\<open>AMSynth.ts\<close>, expression by expression.\<close>

definition getDefaults :: "externals \<Rightarrow> jsobj" where
  "getDefaults ext =
     Object_assign (Monophonic_getDefaults ext)
       [(''harmonicity'', Num 3),
        (''oscillator'', Obj (Object_assign
           (omitFromObject ext (OmniOscillator_getDefaults ext)
              (Object_keys (Source_getDefaults ext) @ [''frequency'', ''detune'']))
           [(''type'', Str ''sine'')])),
        (''envelope'', Obj (Object_assign
           (omitFromObject ext (Envelope_getDefaults ext)
              (Object_keys (ToneAudioNode_getDefaults ext)))
           [(''attack'', Num 0.01), (''decay'', Num 0.01),
            (''sustain'', Num 1), (''release'', Num 0.5)])),
        (''modulation'', Obj (Object_assign
           (omitFromObject ext (OmniOscillator_getDefaults ext)
              (Object_keys (Source_getDefaults ext) @ [''frequency'', ''detune'']))
           [(''type'', Str ''square'')])),
        (''modulationEnvelope'', Obj (Object_assign
           (omitFromObject ext (Envelope_getDefaults ext)
              (Object_keys (ToneAudioNode_getDefaults ext)))
           [(''attack'', Num 0.5), (''decay'', Num 0.0),
            (''sustain'', Num 1), (''release'', Num 0.5)]))]"

section \<open>Options given to the constructor\<close>

text \<open>
  Modelled from the spec: \<^verbatim>\<open>optionsFromArguments\<close> of \<^verbatim>\<open>core/util/Defaults\<close> is not in
  \<^verbatim>\<open>AMSynth.ts\<close>. The spec says the construction options are "all optional, merged over
  defaults", and the constructor takes a \<^verbatim>\<open>RecursivePartial\<close> of the options: a key
  the caller gives replaces the default, a nested object is merged key by key, and a
  call without options yields the defaults.
\<close>

fun deepMerge :: "jsobj \<Rightarrow> jsobj \<Rightarrow> jsobj" where
  "deepMerge target [] = target"
| "deepMerge target ((k, v) # source) =
     deepMerge
       (AList.update k
          (case (map_of target k, v) of
             (Some (Obj t), Obj s) \<Rightarrow> Obj (deepMerge t s)
           | _ \<Rightarrow> v)
          target)
       source"

definition optionsFromArguments :: "jsobj \<Rightarrow> jsobj option \<Rightarrow> jsobj" where
  "optionsFromArguments defaults arguments =
     (case arguments of None \<Rightarrow> defaults | Some given \<Rightarrow> deepMerge defaults given)"

section \<open>The audio graph\<close>

text \<open>
  Every \<^verbatim>\<open>new\<close> of the constructor makes an object with an identity of its own, and
  the constructor stores references, not copies. Objects live in a store indexed by
  references; a connection is a pair of references, kept in the order the connections
  were made.

  The node kinds are the collaborators the file imports. An oscillator and an envelope
  hold their shape parameters as a table of properties. \<^verbatim>\<open>Source\<close> is the audio
  output of a sub-voice (a \<^verbatim>\<open>Synth\<close>) with its output attenuation in decibels;
  \<^verbatim>\<open>Port\<close> is a connectable input or output with no value of its own (a sub-voice's
  pitch and detune inputs, the voice's output).
\<close>

type_synonym ref = nat

datatype node =
    OmniOscillator jsobj
  | AmplitudeEnvelope jsobj
  | Signal string real
  | Param real
  | Multiply real
  | GainNode ref
  | AudioToGain
  | Source real
  | Port

text \<open>
  The calls the voice makes on objects whose classes are not in \<^verbatim>\<open>AMSynth.ts\<close> are
  recorded in the order they are made: an envelope being triggered, \<^verbatim>\<open>dispose()\<close>
  being called on an owned object, and the base class's own teardown.
\<close>

datatype call =
    TriggerAttack ref real real
  | TriggerRelease ref real
  | Dispose ref
  | SuperDispose

datatype error = InvalidConfiguration | UseAfterDispose

text \<open>
  An object of the library together with the state of its audio context: the store,
  the next unused reference, the connections, the calls made so far, and the flag the
  base class sets when the object has been disposed of.
\<close>

record ToneWithContext =
  nodes :: "ref \<rightharpoonup> node"
  fresh :: ref
  connections :: "(ref \<times> ref) list"
  calls :: "call list"
  disposed :: bool

definition emptyContext :: ToneWithContext where
  "emptyContext = \<lparr>nodes = Map.empty, fresh = 0, connections = [], calls = [], disposed = False\<rparr>"

definition alloc :: "node \<Rightarrow> 'a ToneWithContext_scheme \<Rightarrow> ref \<times> 'a ToneWithContext_scheme" where
  "alloc n c = (fresh c, c\<lparr>nodes := (nodes c)(fresh c \<mapsto> n), fresh := Suc (fresh c)\<rparr>)"

text \<open>
  Modelled from the spec: \<^verbatim>\<open>connect\<close>, \<^verbatim>\<open>chain\<close> and \<^verbatim>\<open>fan\<close> are methods of
  \<^verbatim>\<open>ToneAudioNode\<close>, which is not in \<^verbatim>\<open>AMSynth.ts\<close>. \<^verbatim>\<open>a.connect(b)\<close> routes the
  output of \<^verbatim>\<open>a\<close> into \<^verbatim>\<open>b\<close>; \<^verbatim>\<open>a.chain(b, c)\<close> connects in series (the spec's
  "connects through a multiplier ... to the modulator's pitch input"); \<^verbatim>\<open>a.fan(b, c)\<close>
  connects \<^verbatim>\<open>a\<close> to each of its arguments (the spec's "connects identically to both").
\<close>

definition connect :: "ref \<Rightarrow> ref \<Rightarrow> 'a ToneWithContext_scheme \<Rightarrow> 'a ToneWithContext_scheme" where
  "connect a b c = c\<lparr>connections := connections c @ [(a, b)]\<rparr>"

fun chain_to :: "ref \<Rightarrow> ref list \<Rightarrow> 'a ToneWithContext_scheme \<Rightarrow> 'a ToneWithContext_scheme" where
  "chain_to a [] c = c"
| "chain_to a (b # bs) c = chain_to b bs (connect a b c)"

fun fan :: "ref \<Rightarrow> ref list \<Rightarrow> 'a ToneWithContext_scheme \<Rightarrow> 'a ToneWithContext_scheme" where
  "fan a [] c = c"
| "fan a (b # bs) c = fan a bs (connect a b c)"

subsection \<open>Signals through the graph\<close>

text \<open>
  Modelled from the spec: the bipolar-to-unipolar converter \<^verbatim>\<open>AudioToGain\<close> is not in
  \<^verbatim>\<open>AMSynth.ts\<close>. The spec gives its transfer function: \<^verbatim>\<open>y = (x + 1) / 2\<close>.
\<close>

definition AudioToGain_scale :: "real \<Rightarrow> real" where
  "AudioToGain_scale x = (x + 1) / 2"

definition sources :: "'a ToneWithContext_scheme \<Rightarrow> ref \<Rightarrow> ref list" where
  "sources c r = map fst (filter (\<lambda>e. snd e = r) (connections c))"

text \<open>
  Modelled from the spec: what each node kind puts out at one instant, given the audio
  sample each sub-voice emits at that instant (\<^verbatim>\<open>sample\<close>). Signals connected to the
  same input add up. A control signal puts out its value and a parameter its value plus
  what is connected to it; a multiplier puts out its input times its factor; a gain
  node its input times its gain parameter; the converter the scaled input. The graph
  is walked from the node back to its sources, a bounded number of steps deep (the result
  is \<^verbatim>\<open>None\<close> when the bound is too small or a node is no signal node).
\<close>

fun output_at :: "'a ToneWithContext_scheme \<Rightarrow> (ref \<Rightarrow> real) \<Rightarrow> nat \<Rightarrow> ref \<Rightarrow> real option" where
  "output_at c sample 0 r = None"
| "output_at c sample (Suc n) r =
     (let inputs = map_option sum_list (those (map (output_at c sample n) (sources c r))) in
      case nodes c r of
        None \<Rightarrow> None
      | Some (Signal u v) \<Rightarrow> map_option (\<lambda>i. v + i) inputs
      | Some (Param v) \<Rightarrow> map_option (\<lambda>i. v + i) inputs
      | Some (Multiply v) \<Rightarrow> map_option (\<lambda>i. i * v) inputs
      | Some (GainNode g) \<Rightarrow>
          (case (inputs, output_at c sample n g) of
             (Some i, Some gv) \<Rightarrow> Some (i * gv)
           | _ \<Rightarrow> None)
      | Some AudioToGain \<Rightarrow> map_option AudioToGain_scale inputs
      | Some (Source vol) \<Rightarrow> Some (sample r)
      | Some Port \<Rightarrow> inputs
      | Some (OmniOscillator opts) \<Rightarrow> None
      | Some (AmplitudeEnvelope opts) \<Rightarrow> None)"

text \<open>
  Modelled from the spec: the signal reaching an input is the sum of what its sources
  put out.
\<close>

definition input_at :: "'a ToneWithContext_scheme \<Rightarrow> (ref \<Rightarrow> real) \<Rightarrow> nat \<Rightarrow> ref \<Rightarrow> real option" where
  "input_at c sample n r = map_option sum_list (those (map (output_at c sample n) (sources c r)))"

section \<open>The collaborators the voice builds\<close>

text \<open>
  Modelled from the spec: the classes \<^verbatim>\<open>Synth\<close>, \<^verbatim>\<open>Signal\<close>, \<^verbatim>\<open>Multiply\<close>,
  \<^verbatim>\<open>Gain\<close>, \<^verbatim>\<open>AudioToGain\<close> and the base class \<^verbatim>\<open>Monophonic\<close> are not in
  \<^verbatim>\<open>AMSynth.ts\<close>. What follows is what the spec says of them, and no more.

  A sub-voice is "oscillator waveform parameters, envelope shape parameters, a pitch
  input, a detune input, an audio output port", built from "oscillator-shape options and
  envelope-shape options plus a fixed output attenuation", with "no error conditions
  beyond invalid construction options (rejected at construction with an
  \<^verbatim>\<open>InvalidConfiguration\<close> failure)": options that are not an object are rejected. Its
  fields are read-only references, so a sub-voice is a tuple of references.
\<close>

datatype Synth =
  Synth (Synth_self: ref) (Synth_oscillator: ref) (Synth_envelope: ref)
        (Synth_frequency: ref) (Synth_detune: ref)

definition Synth_new ::
  "jsval \<Rightarrow> jsval \<Rightarrow> real \<Rightarrow> 'a ToneWithContext_scheme \<Rightarrow>
     error + Synth \<times> 'a ToneWithContext_scheme" where
  "Synth_new oscillatorOptions envelopeOptions volume c0 =
     (case (oscillatorOptions, envelopeOptions) of
        (Obj oscillatorShape, Obj envelopeShape) \<Rightarrow>
          (let (osc, c1) = alloc (OmniOscillator oscillatorShape) c0;
               (env, c2) = alloc (AmplitudeEnvelope envelopeShape) c1;
               (freq, c3) = alloc Port c2;
               (det, c4) = alloc Port c3;
               (self, c5) = alloc (Source volume) c4
           in Inr (Synth self osc env freq det, c5))
      | _ \<Rightarrow> Inl InvalidConfiguration)"

text \<open>
  Modelled from the spec: \<^verbatim>\<open>_triggerEnvelopeAttack\<close> and \<^verbatim>\<open>_triggerEnvelopeRelease\<close>
  of \<^verbatim>\<open>Synth\<close> are not in \<^verbatim>\<open>AMSynth.ts\<close>. The sub-voice "exposes
  \<^verbatim>\<open>triggerAttack(time, velocity)\<close> and \<^verbatim>\<open>triggerRelease(time)\<close> that forward to its
  internal envelope", with "no error conditions beyond invalid construction options":
  the trigger its envelope receives is recorded.
\<close>

definition Synth_triggerEnvelopeAttack ::
  "Synth \<Rightarrow> real \<Rightarrow> real \<Rightarrow> 'a ToneWithContext_scheme \<Rightarrow> 'a ToneWithContext_scheme" where
  "Synth_triggerEnvelopeAttack v time velocity c =
     c\<lparr>calls := calls c @ [TriggerAttack (Synth_envelope v) time velocity]\<rparr>"

definition Synth_triggerEnvelopeRelease ::
  "Synth \<Rightarrow> real \<Rightarrow> 'a ToneWithContext_scheme \<Rightarrow> 'a ToneWithContext_scheme" where
  "Synth_triggerEnvelopeRelease v time c =
     c\<lparr>calls := calls c @ [TriggerRelease (Synth_envelope v) time]\<rparr>"

text \<open>
  Modelled from the spec: the \<^verbatim>\<open>dispose\<close> methods of the owned objects are not in
  \<^verbatim>\<open>AMSynth.ts\<close>, and the spec says of them only that they release the object. A call
  \<^verbatim>\<open>x.dispose()\<close> on an owned object is recorded.
\<close>

definition dispose_of :: "ref \<Rightarrow> 'a ToneWithContext_scheme \<Rightarrow> 'a ToneWithContext_scheme" where
  "dispose_of r c = c\<lparr>calls := calls c @ [Dispose r]\<rparr>"

text \<open>
  Modelled from the spec: \<^verbatim>\<open>dispose\<close> of the base class is not in \<^verbatim>\<open>AMSynth.ts\<close>. The
  spec speaks of "the base class's own teardown" and of "a disposed voice":
  \<^verbatim>\<open>super.dispose()\<close> is recorded and leaves the voice disposed.
\<close>

definition super_dispose :: "'a ToneWithContext_scheme \<Rightarrow> 'a ToneWithContext_scheme" where
  "super_dispose c = c\<lparr>calls := calls c @ [SuperDispose], disposed := True\<rparr>"

text \<open>
  Modelled from the spec: the constructor of the base class is not in \<^verbatim>\<open>AMSynth.ts\<close>.
  \<^verbatim>\<open>super(...)\<close> gives the voice what the spec calls its "final output port".
\<close>

definition Monophonic_new :: "'a ToneWithContext_scheme \<Rightarrow> ref \<times> 'a ToneWithContext_scheme" where
  "Monophonic_new c = alloc Port c"

text \<open>
  Modelled from the spec: \<^verbatim>\<open>Signal\<close> is not in \<^verbatim>\<open>AMSynth.ts\<close>. A published control
  is a signal with units and "a schedulable scalar value" that a caller "may read" and
  change. Built with a value that is not a number, it starts at the class's default.
\<close>

definition Signal_new ::
  "externals \<Rightarrow> string \<Rightarrow> jsval \<Rightarrow> 'a ToneWithContext_scheme \<Rightarrow> ref \<times> 'a ToneWithContext_scheme" where
  "Signal_new ext units v c =
     alloc (Signal units (case v of Num x \<Rightarrow> x | _ \<Rightarrow> Signal_defaultValue ext)) c"

definition Signal_setValue :: "ref \<Rightarrow> real \<Rightarrow> 'a ToneWithContext_scheme \<Rightarrow> 'a ToneWithContext_scheme" where
  "Signal_setValue r v c =
     (case nodes c r of
        Some (Signal units old) \<Rightarrow> c\<lparr>nodes := (nodes c)(r \<mapsto> Signal units v)\<rparr>
      | _ \<Rightarrow> c)"

text \<open>
  Modelled from the spec: \<^verbatim>\<open>Multiply\<close>, the multiplier that carries the harmonicity,
  is not in \<^verbatim>\<open>AMSynth.ts\<close>. The spec: "harmonicity is clamped to non-negative range at
  the control layer, out-of-range values are rejected at assignment rather than produced
  as a processing failure", and malformed option values at construction are an
  \<^verbatim>\<open>InvalidConfiguration\<close>. An assignment that is rejected returns \<^verbatim>\<open>None\<close> and
  changes nothing.
\<close>

definition Multiply_new ::
  "jsval \<Rightarrow> 'a ToneWithContext_scheme \<Rightarrow> error + ref \<times> 'a ToneWithContext_scheme" where
  "Multiply_new v c =
     (case v of
        Num x \<Rightarrow> if x < 0 then Inl InvalidConfiguration else Inr (alloc (Multiply x) c)
      | _ \<Rightarrow> Inl InvalidConfiguration)"

definition Multiply_setValue ::
  "ref \<Rightarrow> real \<Rightarrow> 'a ToneWithContext_scheme \<Rightarrow> 'a ToneWithContext_scheme option" where
  "Multiply_setValue r v c =
     (if v < 0 then None
      else case nodes c r of
        Some (Multiply old) \<Rightarrow> Some (c\<lparr>nodes := (nodes c)(r \<mapsto> Multiply v)\<rparr>)
      | _ \<Rightarrow> Some c)"

text \<open>
  Modelled from the spec: \<^verbatim>\<open>Gain\<close> and \<^verbatim>\<open>AudioToGain\<close> are not in \<^verbatim>\<open>AMSynth.ts\<close>.
  A gain node has a "gain-control input", a parameter of its own that \<^verbatim>\<open>node.gain\<close>
  refers to; the scaling stage is "stateless" and has "no parameters".
\<close>

datatype Gain = Gain (Gain_self: ref) (Gain_gain: ref)

definition Gain_new :: "real \<Rightarrow> 'a ToneWithContext_scheme \<Rightarrow> Gain \<times> 'a ToneWithContext_scheme" where
  "Gain_new g c0 =
     (let (param, c1) = alloc (Param g) c0;
          (self, c2) = alloc (GainNode param) c1
      in (Gain self param, c2))"

definition AudioToGain_new :: "'a ToneWithContext_scheme \<Rightarrow> ref \<times> 'a ToneWithContext_scheme" where
  "AudioToGain_new c = alloc AudioToGain c"

text \<open>
  Modelled from the spec: \<^verbatim>\<open>OmniOscillator\<close> and \<^verbatim>\<open>AmplitudeEnvelope\<close> are not in
  \<^verbatim>\<open>AMSynth.ts\<close>. The spec gives callers "read-only access to the carrier/modulator
  oscillator and envelope sub-objects for inspection or fine-tuning their own shape
  parameters": a shape parameter is read and written through a reference to the object
  (\<^verbatim>\<open>synth.envelope.attack = 0.2\<close>).
\<close>

definition getParam :: "ref \<Rightarrow> string \<Rightarrow> 'a ToneWithContext_scheme \<Rightarrow> jsval" where
  "getParam r k c =
     (case nodes c r of
        Some (OmniOscillator shape) \<Rightarrow> getProp shape k
      | Some (AmplitudeEnvelope shape) \<Rightarrow> getProp shape k
      | _ \<Rightarrow> Undefined)"

definition setParam :: "ref \<Rightarrow> string \<Rightarrow> jsval \<Rightarrow> 'a ToneWithContext_scheme \<Rightarrow> 'a ToneWithContext_scheme" where
  "setParam r k v c =
     (case nodes c r of
        Some (OmniOscillator shape) \<Rightarrow>
          c\<lparr>nodes := (nodes c)(r \<mapsto> OmniOscillator (AList.update k v shape))\<rparr>
      | Some (AmplitudeEnvelope shape) \<Rightarrow>
          c\<lparr>nodes := (nodes c)(r \<mapsto> AmplitudeEnvelope (AList.update k v shape))\<rparr>
      | _ \<Rightarrow> c)"

section \<open>The voice\<close>

text \<open>
  The fields of \<^verbatim>\<open>AMSynth\<close> (lines 37 to 100), on top of what the base classes hold.
  The private fields \<^verbatim>\<open>_carrier\<close>, \<^verbatim>\<open>_modulator\<close>, \<^verbatim>\<open>_modulationNode\<close> and
  \<^verbatim>\<open>_modulationScale\<close> lose their underscore; \<^verbatim>\<open>outputNode\<close> is the inherited \<^verbatim>\<open>output\<close>.
\<close>

record AMSynth = ToneWithContext +
  carrier :: Synth
  modulator :: Synth
  oscillator :: ref
  envelope :: ref
  modulation :: ref
  modulationEnvelope :: ref
  frequency :: ref
  detune :: ref
  harmonicity :: ref
  modulationNode :: Gain
  modulationScale :: ref
  outputNode :: ref

text \<open>
  The constructor, lines 103 to 153, statement by statement, in a fresh audio context.
  \<^verbatim>\<open>readOnly\<close> (line 152) forbids reassigning the seven published fields; no function
  of the model reassigns a field.
\<close>

definition AMSynth_new :: "externals \<Rightarrow> jsobj option \<Rightarrow> error + AMSynth" where
  "AMSynth_new ext arguments =
     (let options = optionsFromArguments (getDefaults ext) arguments;
          (out, c0) = Monophonic_new emptyContext
      in case Synth_new (getProp options ''oscillator'') (getProp options ''envelope'') (- 10) c0 of
           Inl e \<Rightarrow> Inl e
         | Inr (car, c1) \<Rightarrow>
      (case Synth_new (getProp options ''modulation'')
              (getProp options ''modulationEnvelope'') (- 10) c1 of
           Inl e \<Rightarrow> Inl e
         | Inr (modl, c2) \<Rightarrow>
      (let (freq, c3) = Signal_new ext ''frequency'' Undefined c2;
           (det, c4) = Signal_new ext ''cents'' (getProp options ''detune'') c3
       in case Multiply_new (getProp options ''harmonicity'') c4 of
           Inl e \<Rightarrow> Inl e
         | Inr (harm, c5) \<Rightarrow>
            (let (modNode, c6) = Gain_new 0 c5;
                 (modScale, c7) = AudioToGain_new c6;
                 c8 = connect freq (Synth_frequency car) c7;
                 c9 = chain_to freq [harm, Synth_frequency modl] c8;
                 c10 = fan det [Synth_detune car, Synth_detune modl] c9;
                 c11 = chain_to (Synth_self modl) [modScale, Gain_gain modNode] c10;
                 c12 = chain_to (Synth_self car) [Gain_self modNode, out] c11
             in Inr \<lparr>nodes = nodes c12, fresh = fresh c12, connections = connections c12,
                     calls = calls c12, disposed = disposed c12,
                     carrier = car, modulator = modl,
                     oscillator = Synth_oscillator car, envelope = Synth_envelope car,
                     modulation = Synth_oscillator modl,
                     modulationEnvelope = Synth_envelope modl,
                     frequency = freq, detune = det, harmonicity = harm,
                     modulationNode = modNode, modulationScale = modScale,
                     outputNode = out\<rparr>))))"

text \<open>
  \<^verbatim>\<open>_triggerEnvelopeAttack\<close> (lines 208 to 213) and \<^verbatim>\<open>_triggerEnvelopeRelease\<close> (lines
  218 to 224). Neither has a \<^verbatim>\<open>throw\<close> or a test of its own, and the calls they make
  have no error condition, so the result is always \<^verbatim>\<open>Inr\<close>; the result type is a sum so
  that a failure, were there one, could be told from a return.
\<close>

definition triggerEnvelopeAttack :: "real \<Rightarrow> real \<Rightarrow> AMSynth \<Rightarrow> error + AMSynth" where
  "triggerEnvelopeAttack time velocity this =
     (let this1 = Synth_triggerEnvelopeAttack (carrier this) time velocity this;
          this2 = Synth_triggerEnvelopeAttack (modulator this1) time velocity this1
      in Inr this2)"

definition triggerEnvelopeRelease :: "real \<Rightarrow> AMSynth \<Rightarrow> error + AMSynth" where
  "triggerEnvelopeRelease time this =
     (let this1 = Synth_triggerEnvelopeRelease (carrier this) time this;
          this2 = Synth_triggerEnvelopeRelease (modulator this1) time this1
      in Inr this2)"

text \<open>\<^verbatim>\<open>dispose\<close>, lines 226 to 236: eight calls in a row, then \<^verbatim>\<open>return this\<close>.\<close>

definition dispose :: "AMSynth \<Rightarrow> error + AMSynth" where
  "dispose this =
     (let t0 = super_dispose this;
          t1 = dispose_of (Synth_self (carrier t0)) t0;
          t2 = dispose_of (Synth_self (modulator t1)) t1;
          t3 = dispose_of (frequency t2) t2;
          t4 = dispose_of (detune t3) t3;
          t5 = dispose_of (harmonicity t4) t4;
          t6 = dispose_of (modulationScale t5) t5;
          t7 = dispose_of (Gain_self (modulationNode t6)) t6
      in Inr t7)"

section \<open>Using the voice\<close>

text \<open>\<^verbatim>\<open>x.value\<close>: the current value of a control.\<close>

definition getValue :: "ref \<Rightarrow> 'a ToneWithContext_scheme \<Rightarrow> real option" where
  "getValue r c =
     (case nodes c r of
        Some (Signal units v) \<Rightarrow> Some v
      | Some (Multiply v) \<Rightarrow> Some v
      | Some (Param v) \<Rightarrow> Some v
      | _ \<Rightarrow> None)"

text \<open>
  What a caller does with a live voice, one action at a time: assign a value to one of
  the three published controls, trigger the envelopes, or adjust a shape parameter
  through one of the four published oscillator and envelope fields. An assignment to
  the harmonicity that is rejected leaves the voice as it was.
\<close>

datatype part = OscillatorField | EnvelopeField | ModulationField | ModulationEnvelopeField

fun field_of :: "part \<Rightarrow> AMSynth \<Rightarrow> ref" where
  "field_of OscillatorField this = oscillator this"
| "field_of EnvelopeField this = envelope this"
| "field_of ModulationField this = modulation this"
| "field_of ModulationEnvelopeField this = modulationEnvelope this"

datatype action =
    SetFrequency real
  | SetDetune real
  | SetHarmonicity real
  | TriggerEnvelopeAttack real real
  | TriggerEnvelopeRelease real
  | SetShape part string jsval

fun step :: "action \<Rightarrow> AMSynth \<Rightarrow> AMSynth" where
  "step (SetFrequency f) this = Signal_setValue (frequency this) f this"
| "step (SetDetune d) this = Signal_setValue (detune this) d this"
| "step (SetHarmonicity h) this =
     (case Multiply_setValue (harmonicity this) h this of Some this' \<Rightarrow> this' | None \<Rightarrow> this)"
| "step (TriggerEnvelopeAttack time velocity) this =
     (case triggerEnvelopeAttack time velocity this of Inr this' \<Rightarrow> this' | Inl e \<Rightarrow> this)"
| "step (TriggerEnvelopeRelease time) this =
     (case triggerEnvelopeRelease time this of Inr this' \<Rightarrow> this' | Inl e \<Rightarrow> this)"
| "step (SetShape p k v) this = setParam (field_of p this) k v this"

fun run :: "action list \<Rightarrow> AMSynth \<Rightarrow> AMSynth" where
  "run [] this = this"
| "run (a # as) this = run as (step a this)"

text \<open>The triggers a caller issued, and the triggers an envelope received, in order.\<close>

datatype trigger = Attack real real | Release real

fun issued :: "action list \<Rightarrow> trigger list" where
  "issued [] = []"
| "issued (TriggerEnvelopeAttack time velocity # as) = Attack time velocity # issued as"
| "issued (TriggerEnvelopeRelease time # as) = Release time # issued as"
| "issued (a # as) = issued as"

fun received :: "ref \<Rightarrow> call list \<Rightarrow> trigger list" where
  "received env [] = []"
| "received env (TriggerAttack r time velocity # cs) =
     (if r = env then Attack time velocity # received env cs else received env cs)"
| "received env (TriggerRelease r time # cs) =
     (if r = env then Release time # received env cs else received env cs)"
| "received env (c # cs) = received env cs"

text \<open>
  The seven objects \<^verbatim>\<open>dispose\<close> releases, in the order of lines 228 to 234, and
  \<^verbatim>\<open>dispose()\<close> called a number of times in a row.
\<close>

definition owned :: "AMSynth \<Rightarrow> ref list" where
  "owned this =
     [Synth_self (carrier this), Synth_self (modulator this), frequency this, detune this,
      harmonicity this, modulationScale this, Gain_self (modulationNode this)]"

fun disposeTimes :: "nat \<Rightarrow> AMSynth \<Rightarrow> error + AMSynth" where
  "disposeTimes 0 this = Inr this"
| "disposeTimes (Suc n) this =
     (case dispose this of Inl e \<Rightarrow> Inl e | Inr this' \<Rightarrow> disposeTimes n this')"

text \<open>
  Modelled from the spec: the oscillator of a sub-voice is not in \<^verbatim>\<open>AMSynth.ts\<close>. The
  spec measures detune in cents, 1200 cents being one octave: the pitch a sub-voice
  sounds is the signal at its pitch input, raised by the signal at its detune input.
\<close>

definition Synth_pitch ::
  "'a ToneWithContext_scheme \<Rightarrow> (ref \<Rightarrow> real) \<Rightarrow> nat \<Rightarrow> Synth \<Rightarrow> real option" where
  "Synth_pitch c sample n v =
     (case (input_at c sample n (Synth_frequency v), input_at c sample n (Synth_detune v)) of
        (Some f, Some cents) \<Rightarrow> Some (f * 2 powr (cents / 1200))
      | _ \<Rightarrow> None)"

text \<open>
  One choice of the imported default tables and of \<^verbatim>\<open>omitFromObject\<close>, to run the
  model on.
\<close>

definition exampleExternals :: externals where
  "exampleExternals =
     \<lparr>Monophonic_getDefaults =
        [(''detune'', Num 0), (''portamento'', Num 0), (''volume'', Num 0)],
      OmniOscillator_getDefaults =
        [(''type'', Str ''sine''), (''frequency'', Num 440), (''detune'', Num 0),
         (''phase'', Num 0), (''mute'', Num 0)],
      Source_getDefaults = [(''mute'', Num 0), (''volume'', Num 0)],
      Envelope_getDefaults =
        [(''attack'', Num 0.01), (''decay'', Num 0.1), (''sustain'', Num 0.5),
         (''release'', Num 1)],
      ToneAudioNode_getDefaults = [],
      omitFromObject = (\<lambda>obj ks. filter (\<lambda>kv. fst kv \<notin> set ks) obj),
      Signal_defaultValue = 0\<rparr>"

text \<open>
  The voice a call without options constructs from these tables, written out, and two
  sample functions: a moment at which both sub-voices are silent, and one at which both
  put out 1.
\<close>

definition exampleVoice :: AMSynth where
  "exampleVoice =
     \<lparr>nodes =
        [0 \<mapsto> Port,
         1 \<mapsto> OmniOscillator [(''type'', Str ''sine''), (''phase'', Num 0)],
         2 \<mapsto> AmplitudeEnvelope [(''attack'', Num 0.01), (''decay'', Num 0.01),
                                (''sustain'', Num 1), (''release'', Num 0.5)],
         3 \<mapsto> Port, 4 \<mapsto> Port, 5 \<mapsto> Source (- 10),
         6 \<mapsto> OmniOscillator [(''type'', Str ''square''), (''phase'', Num 0)],
         7 \<mapsto> AmplitudeEnvelope [(''attack'', Num 0.5), (''decay'', Num 0),
                                (''sustain'', Num 1), (''release'', Num 0.5)],
         8 \<mapsto> Port, 9 \<mapsto> Port, 10 \<mapsto> Source (- 10),
         11 \<mapsto> Signal ''frequency'' 0, 12 \<mapsto> Signal ''cents'' 0, 13 \<mapsto> Multiply 3,
         14 \<mapsto> Param 0, 15 \<mapsto> GainNode 14, 16 \<mapsto> AudioToGain],
      fresh = 17,
      connections =
        [(11, 3), (11, 13), (13, 8), (12, 4), (12, 9), (10, 16), (16, 14), (5, 15), (15, 0)],
      calls = [], disposed = False,
      carrier = Synth 5 1 2 3 4, modulator = Synth 10 6 7 8 9,
      oscillator = 1, envelope = 2, modulation = 6, modulationEnvelope = 7,
      frequency = 11, detune = 12, harmonicity = 13,
      modulationNode = Gain 15 14, modulationScale = 16, outputNode = 0\<rparr>"

definition silence :: "ref \<Rightarrow> real" where
  "silence r = 0"


text \<open>One call after another, the second only if the first returned.\<close>

definition thenDo :: "error + 'a \<Rightarrow> ('a \<Rightarrow> error + 'b) \<Rightarrow> error + 'b" where
  "thenDo r f = (case r of Inl e \<Rightarrow> Inl e | Inr x \<Rightarrow> f x)"

text \<open>How often \<^verbatim>\<open>dispose()\<close> has been called on an object.\<close>

definition released :: "ref \<Rightarrow> 'a ToneWithContext_scheme \<Rightarrow> nat" where
  "released r c = count_list (calls c) (Dispose r)"

text \<open>The sub-voice's own reference to the object a published field names.\<close>

fun subvoice_field :: "part \<Rightarrow> AMSynth \<Rightarrow> ref" where
  "subvoice_field OscillatorField this = Synth_oscillator (carrier this)"
| "subvoice_field EnvelopeField this = Synth_envelope (carrier this)"
| "subvoice_field ModulationField this = Synth_oscillator (modulator this)"
| "subvoice_field ModulationEnvelopeField this = Synth_envelope (modulator this)"

text \<open>
  Where the constructor puts everything, written out: the references it hands out
  in a fresh context, the nine connections in the order they are made, and the kind of
  every node. The values of the three controls and the shape options are left open.
\<close>

definition laid_out :: "AMSynth \<Rightarrow> bool" where
  "laid_out this \<longleftrightarrow>
     carrier this = Synth 5 1 2 3 4 \<and> modulator this = Synth 10 6 7 8 9 \<and>
     oscillator this = 1 \<and> envelope this = 2 \<and>
     modulation this = 6 \<and> modulationEnvelope this = 7 \<and>
     frequency this = 11 \<and> detune this = 12 \<and> harmonicity this = 13 \<and>
     modulationNode this = Gain 15 14 \<and> modulationScale this = 16 \<and> outputNode this = 0 \<and>
     connections this =
       [(11, 3), (11, 13), (13, 8), (12, 4), (12, 9), (10, 16), (16, 14), (5, 15), (15, 0)] \<and>
     nodes this 0 = Some Port \<and>
     (\<exists>opts. nodes this 1 = Some (OmniOscillator opts)) \<and>
     (\<exists>opts. nodes this 2 = Some (AmplitudeEnvelope opts)) \<and>
     nodes this 3 = Some Port \<and> nodes this 4 = Some Port \<and>
     nodes this 5 = Some (Source (- 10)) \<and>
     (\<exists>opts. nodes this 6 = Some (OmniOscillator opts)) \<and>
     (\<exists>opts. nodes this 7 = Some (AmplitudeEnvelope opts)) \<and>
     nodes this 8 = Some Port \<and> nodes this 9 = Some Port \<and>
     nodes this 10 = Some (Source (- 10)) \<and>
     (\<exists>f. nodes this 11 = Some (Signal ''frequency'' f)) \<and>
     (\<exists>d. nodes this 12 = Some (Signal ''cents'' d)) \<and>
     (\<exists>h. nodes this 13 = Some (Multiply h) \<and> 0 \<le> h) \<and>
     nodes this 14 = Some (Param 0) \<and> nodes this 15 = Some (GainNode 14) \<and>
     nodes this 16 = Some AudioToGain"

section \<open>Facts about option objects\<close>

lemma getProp_update:
  "getProp (AList.update k v obj) k' = (if k' = k then v else getProp obj k')"
  by (simp add: getProp_def update_conv')










section \<open>Facts about the constructed voice\<close>

lemmas new_defs = AMSynth_new_def Monophonic_new_def Synth_new_def Signal_new_def Multiply_new_def
  Gain_new_def AudioToGain_new_def alloc_def connect_def emptyContext_def

lemma AMSynth_new_built:
  assumes "getProp (optionsFromArguments (getDefaults ext) arguments) ''oscillator'' = Obj osc"
    and "getProp (optionsFromArguments (getDefaults ext) arguments) ''envelope'' = Obj env"
    and "getProp (optionsFromArguments (getDefaults ext) arguments) ''modulation'' = Obj modu"
    and "getProp (optionsFromArguments (getDefaults ext) arguments) ''modulationEnvelope''
           = Obj modenv"
    and "getProp (optionsFromArguments (getDefaults ext) arguments) ''harmonicity'' = Num h"
    and "0 \<le> h"
  shows "AMSynth_new ext arguments = Inr
     (exampleVoice\<lparr>nodes :=
        [0 \<mapsto> Port, 1 \<mapsto> OmniOscillator osc, 2 \<mapsto> AmplitudeEnvelope env,
         3 \<mapsto> Port, 4 \<mapsto> Port, 5 \<mapsto> Source (- 10),
         6 \<mapsto> OmniOscillator modu, 7 \<mapsto> AmplitudeEnvelope modenv,
         8 \<mapsto> Port, 9 \<mapsto> Port, 10 \<mapsto> Source (- 10),
         11 \<mapsto> Signal ''frequency'' (Signal_defaultValue ext),
         12 \<mapsto> Signal ''cents''
                (case getProp (optionsFromArguments (getDefaults ext) arguments) ''detune'' of
                   Num x \<Rightarrow> x | _ \<Rightarrow> Signal_defaultValue ext),
         13 \<mapsto> Multiply h, 14 \<mapsto> Param 0, 15 \<mapsto> GainNode 14, 16 \<mapsto> AudioToGain]\<rparr>)"
  using assms by (simp add: new_defs Let_def exampleVoice_def eval_nat_numeral)

lemma AMSynth_new_options:
  assumes "AMSynth_new ext arguments = Inr s"
  shows "\<exists>osc env modu modenv h.
     getProp (optionsFromArguments (getDefaults ext) arguments) ''oscillator'' = Obj osc \<and>
     getProp (optionsFromArguments (getDefaults ext) arguments) ''envelope'' = Obj env \<and>
     getProp (optionsFromArguments (getDefaults ext) arguments) ''modulation'' = Obj modu \<and>
     getProp (optionsFromArguments (getDefaults ext) arguments) ''modulationEnvelope''
       = Obj modenv \<and>
     getProp (optionsFromArguments (getDefaults ext) arguments) ''harmonicity'' = Num h \<and>
     0 \<le> h"
proof -
  define options where "options = optionsFromArguments (getDefaults ext) arguments"
  have new: "AMSynth_new ext arguments = Inr s" by fact
  obtain osc where a: "getProp options ''oscillator'' = Obj osc"
    using new unfolding options_def
    by (cases "getProp (optionsFromArguments (getDefaults ext) arguments) ''oscillator''")
       (simp_all add: AMSynth_new_def Synth_new_def Monophonic_new_def alloc_def Let_def)
  obtain env where b: "getProp options ''envelope'' = Obj env"
    using new a unfolding options_def
    by (cases "getProp (optionsFromArguments (getDefaults ext) arguments) ''envelope''")
       (simp_all add: AMSynth_new_def Synth_new_def Monophonic_new_def alloc_def Let_def)
  obtain modu where c: "getProp options ''modulation'' = Obj modu"
    using new a b unfolding options_def
    by (cases "getProp (optionsFromArguments (getDefaults ext) arguments) ''modulation''")
       (simp_all add: AMSynth_new_def Synth_new_def Monophonic_new_def alloc_def Let_def)
  obtain modenv where d: "getProp options ''modulationEnvelope'' = Obj modenv"
    using new a b c unfolding options_def
    by (cases "getProp (optionsFromArguments (getDefaults ext) arguments) ''modulationEnvelope''")
       (simp_all add: AMSynth_new_def Synth_new_def Monophonic_new_def alloc_def Let_def)
  obtain h where e: "getProp options ''harmonicity'' = Num h" "0 \<le> h"
    using new a b c d unfolding options_def
    by (cases "getProp (optionsFromArguments (getDefaults ext) arguments) ''harmonicity''")
       (simp_all add: AMSynth_new_def Synth_new_def Monophonic_new_def Signal_new_def
          Multiply_new_def alloc_def Let_def split: if_splits)
  show ?thesis using a b c d e unfolding options_def by blast
qed

lemma AMSynth_new_laid_out:
  assumes "AMSynth_new ext arguments = Inr s"
  shows "laid_out s"
proof -
  obtain osc env modu modenv h where o:
    "getProp (optionsFromArguments (getDefaults ext) arguments) ''oscillator'' = Obj osc"
    "getProp (optionsFromArguments (getDefaults ext) arguments) ''envelope'' = Obj env"
    "getProp (optionsFromArguments (getDefaults ext) arguments) ''modulation'' = Obj modu"
    "getProp (optionsFromArguments (getDefaults ext) arguments) ''modulationEnvelope''
       = Obj modenv"
    "getProp (optionsFromArguments (getDefaults ext) arguments) ''harmonicity'' = Num h"
    "0 \<le> h"
    using AMSynth_new_options [OF assms] by blast
  show ?thesis
    using assms o(6) unfolding AMSynth_new_built [OF o]
    by (auto simp: laid_out_def exampleVoice_def)
qed

lemma AMSynth_new_nodes:
  assumes "AMSynth_new ext arguments = Inr s"
  shows "\<exists>h osc env modu modenv.
     getProp (optionsFromArguments (getDefaults ext) arguments) ''harmonicity'' = Num h \<and>
     getProp (optionsFromArguments (getDefaults ext) arguments) ''oscillator'' = Obj osc \<and>
     getProp (optionsFromArguments (getDefaults ext) arguments) ''envelope'' = Obj env \<and>
     getProp (optionsFromArguments (getDefaults ext) arguments) ''modulation'' = Obj modu \<and>
     getProp (optionsFromArguments (getDefaults ext) arguments) ''modulationEnvelope''
       = Obj modenv \<and>
     nodes s 13 = Some (Multiply h) \<and>
     nodes s 1 = Some (OmniOscillator osc) \<and> nodes s 2 = Some (AmplitudeEnvelope env) \<and>
     nodes s 6 = Some (OmniOscillator modu) \<and> nodes s 7 = Some (AmplitudeEnvelope modenv) \<and>
     calls s = [] \<and> \<not> disposed s"
proof -
  obtain osc env modu modenv h where o:
    "getProp (optionsFromArguments (getDefaults ext) arguments) ''oscillator'' = Obj osc"
    "getProp (optionsFromArguments (getDefaults ext) arguments) ''envelope'' = Obj env"
    "getProp (optionsFromArguments (getDefaults ext) arguments) ''modulation'' = Obj modu"
    "getProp (optionsFromArguments (getDefaults ext) arguments) ''modulationEnvelope''
       = Obj modenv"
    "getProp (optionsFromArguments (getDefaults ext) arguments) ''harmonicity'' = Num h"
    "0 \<le> h"
    using AMSynth_new_options [OF assms] by blast
  show ?thesis
    using assms o unfolding AMSynth_new_built [OF o]
    by (auto simp: exampleVoice_def)
qed




lemma AMSynth_new_example: "AMSynth_new exampleExternals None = Inr exampleVoice"
  by (simp add: new_defs Let_def optionsFromArguments_def getDefaults_def exampleExternals_def
        exampleVoice_def getProp_def Object_keys_def eval_nat_numeral)

lemma example_laid_out: "laid_out exampleVoice"
  using AMSynth_new_example by (rule AMSynth_new_laid_out)

lemma step_laid_out:
  assumes "laid_out s"
  shows "laid_out (step a s)"
proof (cases a)
  case (SetShape p k v)
  then show ?thesis using assms
    by (cases p)
       (auto simp: laid_out_def setParam_def split: option.splits node.splits jsval.splits)
qed (use assms in \<open>auto simp: laid_out_def Signal_setValue_def Multiply_setValue_def
      triggerEnvelopeAttack_def triggerEnvelopeRelease_def Synth_triggerEnvelopeAttack_def
      Synth_triggerEnvelopeRelease_def Let_def split: option.splits node.splits\<close>)

lemma run_laid_out: "laid_out s \<Longrightarrow> laid_out (run acts s)"
  by (induction acts arbitrary: s) (simp_all add: step_laid_out)

lemma example_fields:
  "carrier (run acts exampleVoice) = Synth 5 1 2 3 4"
  "modulator (run acts exampleVoice) = Synth 10 6 7 8 9"
  "frequency (run acts exampleVoice) = 11" "detune (run acts exampleVoice) = 12"
  "harmonicity (run acts exampleVoice) = 13"
  "modulationNode (run acts exampleVoice) = Gain 15 14"
  "outputNode (run acts exampleVoice) = 0"
  using run_laid_out [OF example_laid_out, of acts] by (simp_all add: laid_out_def)

lemma run_append: "run (as @ bs) s = run bs (run as s)"
  by (induction as arbitrary: s) simp_all

text \<open>What reaches each input of a voice that is laid out as the constructor leaves it.\<close>

lemma input_carrier_frequency:
  assumes "laid_out s" and "getValue (frequency s) s = Some f"
  shows "input_at s sample (Suc n) (Synth_frequency (carrier s)) = Some f"
  using assms by (auto simp: laid_out_def getValue_def input_at_def sources_def)

lemma input_modulator_frequency:
  assumes "laid_out s" and "getValue (frequency s) s = Some f"
    and "getValue (harmonicity s) s = Some h"
  shows "input_at s sample (Suc (Suc n)) (Synth_frequency (modulator s)) = Some (f * h)"
  using assms by (auto simp: laid_out_def getValue_def input_at_def sources_def)

lemma input_detune:
  assumes "laid_out s" and "getValue (detune s) s = Some d"
  shows "input_at s sample (Suc n) (Synth_detune (carrier s)) = Some d"
    and "input_at s sample (Suc n) (Synth_detune (modulator s)) = Some d"
  using assms by (auto simp: laid_out_def getValue_def input_at_def sources_def)

lemma input_gain:
  assumes "laid_out s"
  shows "input_at s sample (Suc (Suc n)) (Gain_gain (modulationNode s))
         = Some (AudioToGain_scale (sample (Synth_self (modulator s))))"
  using assms by (auto simp: laid_out_def getValue_def input_at_def sources_def)

lemma laid_out_values:
  assumes "laid_out s"
  shows "\<exists>f d h. getValue (frequency s) s = Some f \<and> getValue (detune s) s = Some d \<and>
           getValue (harmonicity s) s = Some h \<and> 0 \<le> h"
  using assms by (auto simp: laid_out_def getValue_def)


lemma step_values:
  assumes "laid_out s" and "getValue (frequency s) s = Some f"
    and "getValue (harmonicity s) s = Some h" and "getValue (detune s) s = Some d"
  shows "getValue (frequency (step a s)) (step a s)
           = Some (case a of SetFrequency f' \<Rightarrow> f' | _ \<Rightarrow> f)"
    and "getValue (harmonicity (step a s)) (step a s)
           = Some (case a of SetHarmonicity h' \<Rightarrow> if 0 \<le> h' then h' else h | _ \<Rightarrow> h)"
    and "getValue (detune (step a s)) (step a s)
           = Some (case a of SetDetune d' \<Rightarrow> d' | _ \<Rightarrow> d)"
proof -
  have r: "frequency s = 11" "detune s = 12" "harmonicity s = 13"
    "oscillator s = 1" "envelope s = 2" "modulation s = 6" "modulationEnvelope s = 7"
    using assms(1) by (simp_all add: laid_out_def)
  have k: "\<exists>u. nodes s 11 = Some (Signal u f)" "\<exists>u. nodes s 12 = Some (Signal u d)"
    "nodes s 13 = Some (Multiply h)"
    using assms unfolding r by (auto simp: laid_out_def getValue_def)
  have shape: "\<And>p. field_of p s \<in> {1, 2, 6, 7}"
    subgoal for p by (cases p) (simp_all add: r) done
  show "getValue (frequency (step a s)) (step a s)
           = Some (case a of SetFrequency f' \<Rightarrow> f' | _ \<Rightarrow> f)"
    using k shape
    by (cases a)
       (auto simp: r getValue_def Signal_setValue_def Multiply_setValue_def setParam_def
          triggerEnvelopeAttack_def triggerEnvelopeRelease_def Synth_triggerEnvelopeAttack_def
          Synth_triggerEnvelopeRelease_def Let_def split: option.splits node.splits jsval.splits)
  show "getValue (harmonicity (step a s)) (step a s)
           = Some (case a of SetHarmonicity h' \<Rightarrow> if 0 \<le> h' then h' else h | _ \<Rightarrow> h)"
    using k shape
    by (cases a)
       (auto simp: r getValue_def Signal_setValue_def Multiply_setValue_def setParam_def
          triggerEnvelopeAttack_def triggerEnvelopeRelease_def Synth_triggerEnvelopeAttack_def
          Synth_triggerEnvelopeRelease_def Let_def split: option.splits node.splits jsval.splits)
  show "getValue (detune (step a s)) (step a s)
           = Some (case a of SetDetune d' \<Rightarrow> d' | _ \<Rightarrow> d)"
    using k shape
    by (cases a)
       (auto simp: r getValue_def Signal_setValue_def Multiply_setValue_def setParam_def
          triggerEnvelopeAttack_def triggerEnvelopeRelease_def Synth_triggerEnvelopeAttack_def
          Synth_triggerEnvelopeRelease_def Let_def split: option.splits node.splits jsval.splits)
qed

lemma Synth_pitch_laid_out:
  assumes "laid_out s" and "getValue (frequency s) s = Some f"
    and "getValue (harmonicity s) s = Some h" and "getValue (detune s) s = Some d"
  shows "Synth_pitch s sample (Suc (Suc n)) (carrier s) = Some (f * 2 powr (d / 1200))"
    and "Synth_pitch s sample (Suc (Suc n)) (modulator s) = Some (f * h * 2 powr (d / 1200))"
  using input_carrier_frequency [OF assms(1,2), of sample "Suc n"]
    input_modulator_frequency [OF assms(1,2,3), of sample n]
    input_detune [OF assms(1,4), of sample "Suc n"]
  by (simp_all add: Synth_pitch_def)

lemma step_fields:
  assumes "laid_out s"
  shows "carrier (step a s) = carrier s" and "modulator (step a s) = modulator s"
  using assms step_laid_out [OF assms, of a] by (simp_all add: laid_out_def)


lemma scale_wiring:
  assumes "laid_out s"
  shows "sources s (modulationScale s) = [Synth_self (modulator s)]"
    and "sources s (Gain_gain (modulationNode s)) = [modulationScale s]"
    and "nodes s (modulationScale s) = Some AudioToGain"
  using assms by (auto simp: laid_out_def sources_def)


lemma triggerEnvelopeAttack_eq:
  "triggerEnvelopeAttack time velocity s =
     Inr (s\<lparr>calls := calls s @ [TriggerAttack (Synth_envelope (carrier s)) time velocity,
                                 TriggerAttack (Synth_envelope (modulator s)) time velocity]\<rparr>)"
  by (simp add: triggerEnvelopeAttack_def Synth_triggerEnvelopeAttack_def Let_def)

lemma triggerEnvelopeRelease_eq:
  "triggerEnvelopeRelease time s =
     Inr (s\<lparr>calls := calls s @ [TriggerRelease (Synth_envelope (carrier s)) time,
                                 TriggerRelease (Synth_envelope (modulator s)) time]\<rparr>)"
  by (simp add: triggerEnvelopeRelease_def Synth_triggerEnvelopeRelease_def Let_def)

lemma dispose_eq:
  "dispose s = Inr (s\<lparr>calls := calls s @ SuperDispose # map Dispose (owned s), disposed := True\<rparr>)"
  by (simp add: dispose_def dispose_of_def super_dispose_def owned_def Let_def)

lemma calls_step:
  "calls (step a s) = calls s @
     (case a of
        TriggerEnvelopeAttack time velocity \<Rightarrow>
          [TriggerAttack (Synth_envelope (carrier s)) time velocity,
           TriggerAttack (Synth_envelope (modulator s)) time velocity]
      | TriggerEnvelopeRelease time \<Rightarrow>
          [TriggerRelease (Synth_envelope (carrier s)) time,
           TriggerRelease (Synth_envelope (modulator s)) time]
      | _ \<Rightarrow> [])"
  by (cases a)
     (auto simp: triggerEnvelopeAttack_eq triggerEnvelopeRelease_eq Signal_setValue_def
        Multiply_setValue_def setParam_def split: option.splits node.splits)

lemma received_append: "received env (xs @ ys) = received env xs @ received env ys"
  by (induction env xs rule: received.induct) simp_all

lemma received_run:
  assumes "laid_out s"
  shows "received (Synth_envelope (carrier s)) (calls (run acts s))
           = received (Synth_envelope (carrier s)) (calls s) @ issued acts \<and>
         received (Synth_envelope (modulator s)) (calls (run acts s))
           = received (Synth_envelope (modulator s)) (calls s) @ issued acts"
  using assms
proof (induction acts arbitrary: s)
  case Nil
  show ?case by simp
next
  case (Cons a acts)
  have lay: "laid_out (step a s)" using Cons.prems by (rule step_laid_out)
  have same: "carrier (step a s) = carrier s" "modulator (step a s) = modulator s"
    by (rule step_fields [OF Cons.prems])+
  have env: "Synth_envelope (carrier s) = 2" "Synth_envelope (modulator s) = 7"
    using Cons.prems by (simp_all add: laid_out_def)
  have one: "received (Synth_envelope (carrier s)) (calls (step a s))
               = received (Synth_envelope (carrier s)) (calls s) @ issued [a]"
    "received (Synth_envelope (modulator s)) (calls (step a s))
               = received (Synth_envelope (modulator s)) (calls s) @ issued [a]"
    unfolding calls_step received_append env by (cases a; simp)+
  have iss: "issued (a # acts) = issued [a] @ issued acts"
    by (cases a) simp_all
  show ?case
    using Cons.IH [OF lay] unfolding same
    by (simp add: one iss del: step.simps issued.simps)
qed

lemma owned_calls [simp]:
  "owned (s\<lparr>calls := cs, disposed := d\<rparr>) = owned s"
  by (simp add: owned_def)

lemma disposeTimes_eq:
  "disposeTimes k s =
     Inr (s\<lparr>calls := calls s @ concat (replicate k (SuperDispose # map Dispose (owned s))),
            disposed := disposed s \<or> 0 < k\<rparr>)"
proof (induction k arbitrary: s)
  case 0
  show ?case by simp
next
  case (Suc k)
  show ?case by (simp add: dispose_eq Suc.IH)
qed

lemma count_calls_run:
  assumes "c = SuperDispose \<or> c = Dispose r"
  shows "count_list (calls (run acts s)) c = count_list (calls s) c"
proof (induction acts arbitrary: s)
  case Nil
  show ?case by simp
next
  case (Cons a acts)
  have "count_list (calls (step a s)) c = count_list (calls s) c"
    unfolding calls_step using assms by (cases a) auto
  then show ?case using Cons.IH [of "step a s"] by (simp del: step.simps)
qed

lemma disposed_run: "disposed (run acts s) = disposed s"
proof (induction acts arbitrary: s)
  case Nil
  show ?case by simp
next
  case (Cons a acts)
  have "disposed (step a s) = disposed s"
    by (cases a)
       (auto simp: triggerEnvelopeAttack_eq triggerEnvelopeRelease_eq Signal_setValue_def
          Multiply_setValue_def setParam_def split: option.splits node.splits)
  then show ?case using Cons.IH [of "step a s"] by (simp del: step.simps)
qed

lemma count_list_concat_replicate:
  "count_list (concat (replicate k xs)) x = k * count_list xs x"
  by (induction k) simp_all

lemma count_list_map_Dispose:
  "count_list (map Dispose rs) (Dispose r) = count_list rs r"
  by (induction rs) simp_all

lemma owned_laid_out:
  assumes "laid_out s"
  shows "owned s = [5, 10, 11, 12, 13, 16, 15]"
  using assms by (simp add: owned_def laid_out_def)

lemma received_disposals:
  "received env (concat (replicate n (SuperDispose # map Dispose rs))) = []"
proof (induction n)
  case 0
  show ?case by simp
next
  case (Suc n)
  have "received env (map Dispose rs) = []" by (induction rs) simp_all
  then show ?case using Suc by (simp add: received_append)
qed

lemma field_is_subvoice_field:
  assumes "laid_out s"
  shows "field_of p s = subvoice_field p s"
  using assms by (cases p) (simp_all add: laid_out_def)

lemma shape_write_read:
  assumes "laid_out s"
  shows "getParam (subvoice_field p s) k (setParam (field_of p s) k v s) = v"
    and "k' \<noteq> k \<or> q \<noteq> p \<Longrightarrow>
         getParam (subvoice_field q s) k' (setParam (field_of p s) k v s)
           = getParam (subvoice_field q s) k' s"
proof -
  have r: "carrier s = Synth 5 1 2 3 4" "modulator s = Synth 10 6 7 8 9"
    "oscillator s = 1" "envelope s = 2" "modulation s = 6" "modulationEnvelope s = 7"
    using assms by (simp_all add: laid_out_def)
  obtain o1 e2 o6 e7 where n: "nodes s (Suc 0) = Some (OmniOscillator o1)"
    "nodes s 2 = Some (AmplitudeEnvelope e2)" "nodes s 6 = Some (OmniOscillator o6)"
    "nodes s 7 = Some (AmplitudeEnvelope e7)"
    using assms by (auto simp: laid_out_def)
  show "getParam (subvoice_field p s) k (setParam (field_of p s) k v s) = v"
    by (cases p) (simp_all add: r n getParam_def setParam_def getProp_update)
  show "getParam (subvoice_field q s) k' (setParam (field_of p s) k v s)
           = getParam (subvoice_field q s) k' s" if "k' \<noteq> k \<or> q \<noteq> p"
    using that
    by (cases p; cases q) (auto simp: r n getParam_def setParam_def getProp_update)
qed



section \<open>The claims\<close>



text \<open>
  C2. The scaling stage. In every state a live voice can reach, the scaling stage is fed
  by the modulator's output and by nothing else, it is the only source of the modulation
  node's gain input, and what reaches that input is the scaled modulator sample. The
  scaling is \<open>(x + 1) / 2\<close>, which for \<open>x\<close> between \<open>-1\<close> and \<open>1\<close> lies between
  \<open>0\<close> and \<open>1\<close>; it depends on the sample alone, the stage having no value and no
  field.
\<close>

theorem scaling_stage_halves_the_shifted_sample:
  assumes "AMSynth_new ext arguments = Inr s0" and "s = run acts s0"
  shows "nodes s (modulationScale s) = Some AudioToGain \<and>
     sources s (modulationScale s) = [Synth_self (modulator s)] \<and>
     sources s (Gain_gain (modulationNode s)) = [modulationScale s] \<and>
     input_at s sample (Suc (Suc n)) (Gain_gain (modulationNode s))
       = Some (AudioToGain_scale (sample (Synth_self (modulator s)))) \<and>
     AudioToGain_scale x = (x + 1) / 2 \<and>
     (- 1 \<le> x \<and> x \<le> 1 \<longrightarrow> 0 \<le> AudioToGain_scale x \<and> AudioToGain_scale x \<le> 1)"
proof -
  have lay: "laid_out s"
    unfolding assms(2) using AMSynth_new_laid_out [OF assms(1)] by (rule run_laid_out)
  show ?thesis
    using scale_wiring [OF lay] input_gain [OF lay, of sample n]
    by (simp add: AudioToGain_scale_def)
qed

theorem scaling_stage_halves_the_shifted_sample_witness:
  "AMSynth_new exampleExternals None = Inr exampleVoice \<and>
   input_at (run [TriggerEnvelopeAttack 0 1] exampleVoice) silence 2
     (Gain_gain (modulationNode (run [TriggerEnvelopeAttack 0 1] exampleVoice))) = Some (1 / 2) \<and>
   - 1 \<le> (- 1 :: real) \<and> (- 1 :: real) \<le> 1 \<and>
   AudioToGain_scale (- 1) = 0 \<and> 0 \<le> AudioToGain_scale (- 1) \<and> AudioToGain_scale (- 1) \<le> 1"
  using scaling_stage_halves_the_shifted_sample [OF AMSynth_new_example refl,
        of "[TriggerEnvelopeAttack 0 1]" silence 0 "- 1"]
  by (auto simp add: AMSynth_new_example numeral_2_eq_2 AudioToGain_scale_def silence_def
        simp del: run.simps)

text \<open>
  C3. Triggers. One call of \<^verbatim>\<open>_triggerEnvelopeAttack\<close> triggers the carrier's envelope
  and then the modulator's, with the time and the velocity it was given, and does
  nothing else; one call of \<^verbatim>\<open>_triggerEnvelopeRelease\<close> does the same with the time.
  So after any sequence of actions on a constructed voice, retriggers included, each of
  the two envelopes, which are two different objects, has received exactly the triggers
  issued, in the order issued.
\<close>

theorem triggers_reach_both_envelopes_alike:
  assumes "AMSynth_new ext arguments = Inr s0" and "s = run acts s0"
  shows "received (Synth_envelope (carrier s)) (calls s) = issued acts \<and>
     received (Synth_envelope (modulator s)) (calls s) = issued acts \<and>
     Synth_envelope (carrier s) \<noteq> Synth_envelope (modulator s) \<and>
     triggerEnvelopeAttack time velocity s =
       Inr (s\<lparr>calls := calls s @ [TriggerAttack (Synth_envelope (carrier s)) time velocity,
                                   TriggerAttack (Synth_envelope (modulator s)) time velocity]\<rparr>) \<and>
     triggerEnvelopeRelease time s =
       Inr (s\<lparr>calls := calls s @ [TriggerRelease (Synth_envelope (carrier s)) time,
                                   TriggerRelease (Synth_envelope (modulator s)) time]\<rparr>)"
proof -
  have lay0: "laid_out s0" using assms(1) by (rule AMSynth_new_laid_out)
  have lay: "laid_out s" unfolding assms(2) using lay0 by (rule run_laid_out)
  have none: "calls s0 = []" using AMSynth_new_nodes [OF assms(1)] by blast
  have same: "Synth_envelope (carrier (run acts s0)) = Synth_envelope (carrier s0)"
    "Synth_envelope (modulator (run acts s0)) = Synth_envelope (modulator s0)"
    using lay lay0 unfolding assms(2) by (simp_all add: laid_out_def)
  have r: "received (Synth_envelope (carrier s)) (calls s) = issued acts \<and>
     received (Synth_envelope (modulator s)) (calls s) = issued acts"
    unfolding assms(2) same using received_run [OF lay0, of acts] by (simp add: none)
  have "Synth_envelope (carrier s) \<noteq> Synth_envelope (modulator s)"
    using lay by (simp add: laid_out_def)
  then show ?thesis
    using r by (simp add: triggerEnvelopeAttack_eq triggerEnvelopeRelease_eq)
qed

theorem triggers_reach_both_envelopes_alike_witness:
  "AMSynth_new exampleExternals None = Inr exampleVoice \<and>
   received (Synth_envelope (carrier exampleVoice))
     (calls (run [TriggerEnvelopeAttack 0 1, TriggerEnvelopeAttack 0.5 0.8,
                  TriggerEnvelopeRelease 1] exampleVoice))
     = [Attack 0 1, Attack 0.5 0.8, Release 1] \<and>
   received (Synth_envelope (modulator exampleVoice))
     (calls (run [TriggerEnvelopeAttack 0 1, TriggerEnvelopeAttack 0.5 0.8,
                  TriggerEnvelopeRelease 1] exampleVoice))
     = [Attack 0 1, Attack 0.5 0.8, Release 1]"
proof -
  have same: "carrier (run acts exampleVoice) = carrier exampleVoice"
    "modulator (run acts exampleVoice) = modulator exampleVoice" for acts
    using run_laid_out [OF example_laid_out, of acts] example_laid_out
    by (simp_all add: laid_out_def)
  show ?thesis
    using triggers_reach_both_envelopes_alike [OF AMSynth_new_example refl,
        of "[TriggerEnvelopeAttack 0 1, TriggerEnvelopeAttack 0.5 0.8, TriggerEnvelopeRelease 1]"]
    unfolding same
    by (simp add: AMSynth_new_example del: run.simps)
qed

text \<open>
  C4. Triggers after disposal, as the code has them. Once \<^verbatim>\<open>dispose()\<close> has been called
  on a constructed voice, one or more times, the voice is marked disposed, and the
  trigger methods neither test that mark nor fail: \<^verbatim>\<open>_triggerEnvelopeAttack\<close> and
  \<^verbatim>\<open>_triggerEnvelopeRelease\<close> return, having forwarded the trigger to the carrier's
  envelope and to the modulator's exactly as on a live voice.
\<close>

theorem disposed_voice_still_forwards_triggers:
  assumes "AMSynth_new ext arguments = Inr s0" and "disposeTimes (Suc k) (run acts s0) = Inr s"
  shows "disposed s \<and>
     triggerEnvelopeAttack time velocity s =
       Inr (s\<lparr>calls := calls s @ [TriggerAttack (Synth_envelope (carrier s)) time velocity,
                                   TriggerAttack (Synth_envelope (modulator s)) time velocity]\<rparr>) \<and>
     triggerEnvelopeRelease time s =
       Inr (s\<lparr>calls := calls s @ [TriggerRelease (Synth_envelope (carrier s)) time,
                                   TriggerRelease (Synth_envelope (modulator s)) time]\<rparr>) \<and>
     received (Synth_envelope (carrier s)) (calls (step (TriggerEnvelopeAttack time velocity) s))
       = issued acts @ [Attack time velocity] \<and>
     received (Synth_envelope (modulator s)) (calls (step (TriggerEnvelopeAttack time velocity) s))
       = issued acts @ [Attack time velocity]"
proof -
  define t where "t = run acts s0"
  have lay0: "laid_out s0" using assms(1) by (rule AMSynth_new_laid_out)
  have layt: "laid_out t" unfolding t_def using lay0 by (rule run_laid_out)
  have none: "calls s0 = []" using AMSynth_new_nodes [OF assms(1)] by blast
  have same0: "Synth_envelope (carrier t) = Synth_envelope (carrier s0)"
    "Synth_envelope (modulator t) = Synth_envelope (modulator s0)"
    using layt lay0 by (simp_all add: laid_out_def)
  have rt: "received (Synth_envelope (carrier t)) (calls t) = issued acts"
    "received (Synth_envelope (modulator t)) (calls t) = issued acts"
    unfolding same0 unfolding t_def using received_run [OF lay0, of acts]
    by (simp_all add: none)
  have s: "s = t\<lparr>calls := calls t @ concat (replicate (Suc k) (SuperDispose # map Dispose (owned t))),
            disposed := disposed t \<or> 0 < Suc k\<rparr>"
    using assms(2) unfolding t_def [symmetric] disposeTimes_eq by simp
  have env: "Synth_envelope (carrier s) = Synth_envelope (carrier t)"
    "Synth_envelope (modulator s) = Synth_envelope (modulator t)"
    "Synth_envelope (carrier t) = 2" "Synth_envelope (modulator t) = 7"
    unfolding s using layt by (simp_all add: laid_out_def)
  have rs: "received (Synth_envelope (carrier s)) (calls s) = issued acts"
    "received (Synth_envelope (modulator s)) (calls s) = issued acts"
    unfolding env(1,2) using rt unfolding s
    by (simp_all add: received_append received_disposals del: replicate.simps)
  have d: "disposed s" unfolding s by simp
  show ?thesis
    using d rs unfolding calls_step received_append
    by (simp add: triggerEnvelopeAttack_eq triggerEnvelopeRelease_eq env)
qed


theorem disposed_voice_still_forwards_triggers_witness:
  "AMSynth_new exampleExternals None = Inr exampleVoice \<and>
   (\<exists>s. disposeTimes (Suc 0) (run [TriggerEnvelopeAttack 0 1] exampleVoice) = Inr s \<and>
      disposed s \<and>
      triggerEnvelopeRelease 2 s =
        Inr (s\<lparr>calls := calls s @ [TriggerRelease (Synth_envelope (carrier s)) 2,
                                    TriggerRelease (Synth_envelope (modulator s)) 2]\<rparr>))"
proof -
  obtain s where d: "disposeTimes (Suc 0) (run [TriggerEnvelopeAttack 0 1] exampleVoice) = Inr s"
    unfolding disposeTimes_eq by blast
  show ?thesis
    using d disposed_voice_still_forwards_triggers [OF AMSynth_new_example d, where time = 2 and velocity = 1]
    by (simp add: AMSynth_new_example del: disposeTimes.simps run.simps)
qed

text \<open>
  The claim as the spec words it, a trigger on a disposed voice fails with
  \<^verbatim>\<open>UseAfterDispose\<close>, fails: the voice constructed without options, disposed and then
  triggered, returns, with both envelope triggers recorded after the disposal calls.
\<close>

theorem trigger_after_dispose_is_accepted:
  "AMSynth_new exampleExternals None = Inr exampleVoice \<and>
   map_sum id disposed (dispose exampleVoice) = Inr True \<and>
   thenDo (dispose exampleVoice) (triggerEnvelopeAttack 0 1) \<noteq> Inl UseAfterDispose \<and>
   map_sum id calls (thenDo (dispose exampleVoice) (triggerEnvelopeAttack 0 1)) =
     Inr [SuperDispose, Dispose 5, Dispose 10, Dispose 11, Dispose 12, Dispose 13,
          Dispose 16, Dispose 15, TriggerAttack 2 0 1, TriggerAttack 7 0 1]"
proof -
  have o: "owned exampleVoice = [5, 10, 11, 12, 13, 16, 15]"
    using example_laid_out by (rule owned_laid_out)
  have c: "calls exampleVoice = []" "carrier exampleVoice = Synth 5 1 2 3 4"
    "modulator exampleVoice = Synth 10 6 7 8 9"
    by (simp_all add: exampleVoice_def)
  show ?thesis
    by (simp add: AMSynth_new_example thenDo_def dispose_eq triggerEnvelopeAttack_eq o c)
qed





text \<open>
  C7. Detune. In every state a live voice can reach, the signal at the carrier's detune
  input and the signal at the modulator's detune input are both the current value of the
  detune control, unscaled; only an assignment to the detune changes it. With the detune
  at 1200 cents each sub-voice sounds twice the pitch it sounds with the detune at 0,
  which is its pitch input: \<open>f\<close> for the carrier, \<open>f * h\<close> for the modulator.
\<close>

theorem detune_reaches_both_voices:
  assumes "AMSynth_new ext arguments = Inr s0" and "s = run acts s0"
  shows "\<exists>f h d.
     getValue (frequency s) s = Some f \<and> getValue (harmonicity s) s = Some h \<and>
     getValue (detune s) s = Some d \<and>
     input_at s sample (Suc n) (Synth_detune (carrier s)) = Some d \<and>
     input_at s sample (Suc n) (Synth_detune (modulator s)) = Some d \<and>
     getValue (detune (step a s)) (step a s) = Some (case a of SetDetune d' \<Rightarrow> d' | _ \<Rightarrow> d) \<and>
     Synth_pitch (step (SetDetune 0) s) sample (Suc (Suc n)) (carrier s) = Some f \<and>
     Synth_pitch (step (SetDetune 1200) s) sample (Suc (Suc n)) (carrier s) = Some (2 * f) \<and>
     Synth_pitch (step (SetDetune 0) s) sample (Suc (Suc n)) (modulator s) = Some (f * h) \<and>
     Synth_pitch (step (SetDetune 1200) s) sample (Suc (Suc n)) (modulator s) = Some (2 * (f * h))"
proof -
  have lay: "laid_out s"
    unfolding assms(2) using AMSynth_new_laid_out [OF assms(1)] by (rule run_laid_out)
  obtain f d h where v: "getValue (frequency s) s = Some f" "getValue (harmonicity s) s = Some h"
    "getValue (detune s) s = Some d"
    using laid_out_values [OF lay] by blast
  have pitch: "Synth_pitch (step (SetDetune x) s) sample (Suc (Suc n)) (carrier s)
                 = Some (f * 2 powr (x / 1200)) \<and>
               Synth_pitch (step (SetDetune x) s) sample (Suc (Suc n)) (modulator s)
                 = Some (f * h * 2 powr (x / 1200))" for x
  proof -
    define t where "t = step (SetDetune x) s"
    have layt: "laid_out t" unfolding t_def using lay by (rule step_laid_out)
    have vt: "getValue (frequency t) t = Some f" "getValue (harmonicity t) t = Some h"
      "getValue (detune t) t = Some x"
      unfolding t_def using step_values [OF lay v, of "SetDetune x"]
      by (simp_all del: step.simps)
    have same: "carrier t = carrier s" "modulator t = modulator s"
      unfolding t_def by (rule step_fields [OF lay])+
    have "Synth_pitch t sample (Suc (Suc n)) (carrier s) = Some (f * 2 powr (x / 1200)) \<and>
          Synth_pitch t sample (Suc (Suc n)) (modulator s) = Some (f * h * 2 powr (x / 1200))"
      using Synth_pitch_laid_out [OF layt vt, of sample n] by (simp only: same simp_thms)
    then show ?thesis unfolding t_def .
  qed
  show ?thesis
    using v input_detune [OF lay v(3), of sample n] step_values(3) [OF lay v, of a]
      pitch [of 0] pitch [of 1200]
    by (simp del: step.simps)
qed

theorem detune_reaches_both_voices_witness:
  "AMSynth_new exampleExternals None = Inr exampleVoice \<and>
   input_at (run [SetDetune 1200] exampleVoice) silence 1
     (Synth_detune (carrier (run [SetDetune 1200] exampleVoice))) = Some 1200 \<and>
   input_at (run [SetDetune 1200] exampleVoice) silence 1
     (Synth_detune (modulator (run [SetDetune 1200] exampleVoice))) = Some 1200 \<and>
   Synth_pitch (step (SetDetune 1200) (run [SetFrequency 440] exampleVoice)) silence 2
     (carrier (run [SetFrequency 440] exampleVoice)) = Some 880 \<and>
   Synth_pitch (step (SetDetune 1200) (run [SetFrequency 440] exampleVoice)) silence 2
     (modulator (run [SetFrequency 440] exampleVoice)) = Some 2640"
proof -
  define s where "s = run [SetDetune 1200] exampleVoice"
  define t where "t = run [SetFrequency 440] exampleVoice"
  have vs: "getValue (detune s) s = Some 1200"
    unfolding s_def example_fields
    by (simp add: exampleVoice_def getValue_def Signal_setValue_def)
  have vt: "getValue (frequency t) t = Some 440" "getValue (harmonicity t) t = Some 3"
    unfolding t_def example_fields
    by (simp_all add: exampleVoice_def getValue_def Signal_setValue_def)
  obtain d where a: "getValue (detune s) s = Some d"
    "input_at s silence (Suc 0) (Synth_detune (carrier s)) = Some d"
    "input_at s silence (Suc 0) (Synth_detune (modulator s)) = Some d"
    using detune_reaches_both_voices [OF AMSynth_new_example s_def, of silence 0 "SetDetune 0"]
    by blast
  obtain f' h' where b: "getValue (frequency t) t = Some f'"
    "getValue (harmonicity t) t = Some h'"
    "Synth_pitch (step (SetDetune 1200) t) silence (Suc (Suc 0)) (carrier t) = Some (2 * f')"
    "Synth_pitch (step (SetDetune 1200) t) silence (Suc (Suc 0)) (modulator t)
       = Some (2 * (f' * h'))"
    using detune_reaches_both_voices [OF AMSynth_new_example t_def, of silence 0 "SetDetune 0"]
    by blast
  show ?thesis
    using a b vs vt unfolding s_def t_def
    by (simp add: AMSynth_new_example numeral_2_eq_2 del: run.simps step.simps)
qed

text \<open>
  C8. Disposal, as the code has it. \<^verbatim>\<open>dispose\<close> has no guard: every call runs the base
  class's teardown and then calls \<^verbatim>\<open>dispose()\<close> once on each of the seven owned objects
  (carrier, modulator, frequency, detune, harmonicity, scaling stage, modulation node),
  in that order, and returns. So on a constructed voice, whatever was done with it
  before, \<open>k\<close> calls in a row return, leave the voice disposed when \<open>k > 0\<close>, and
  have called \<^verbatim>\<open>dispose()\<close> exactly \<open>k\<close> times on each of the seven distinct owned
  objects and run the base teardown \<open>k\<close> times.
\<close>

theorem dispose_releases_each_resource_once_per_call:
  assumes "AMSynth_new ext arguments = Inr s0" and "s = run acts s0"
  shows "\<exists>s'. disposeTimes k s = Inr s' \<and>
     calls s' = calls s @ concat (replicate k (SuperDispose # map Dispose (owned s))) \<and>
     disposed s' = (0 < k) \<and>
     owned s' = owned s \<and> distinct (owned s) \<and> length (owned s) = 7 \<and>
     (\<forall>r \<in> set (owned s). released r s' = k) \<and>
     count_list (calls s') SuperDispose = k"
proof -
  have lay0: "laid_out s0" using assms(1) by (rule AMSynth_new_laid_out)
  have lay: "laid_out s" unfolding assms(2) using lay0 by (rule run_laid_out)
  have fresh: "calls s0 = []" "\<not> disposed s0"
    using AMSynth_new_nodes [OF assms(1)] by blast+
  have o: "owned s = [5, 10, 11, 12, 13, 16, 15]" using lay by (rule owned_laid_out)
  have rel0: "count_list (calls s) (Dispose r) = 0" for r
    unfolding assms(2) by (simp add: count_calls_run fresh)
  have sup0: "count_list (calls s) SuperDispose = 0"
    unfolding assms(2) by (simp add: count_calls_run fresh)
  have live: "\<not> disposed s"
    unfolding assms(2) by (simp add: disposed_run fresh)
  define s' where "s' = s\<lparr>calls := calls s @ concat (replicate k (SuperDispose # map Dispose (owned s))),
            disposed := disposed s \<or> 0 < k\<rparr>"
  have d: "disposeTimes k s = Inr s'" unfolding s'_def by (rule disposeTimes_eq)
  have c: "calls s' = calls s @ concat (replicate k (SuperDispose # map Dispose (owned s)))"
    and f: "disposed s' = (0 < k)" "owned s' = owned s"
    unfolding s'_def using live by simp_all
  have each: "released r s' = k" if "r \<in> set (owned s)" for r
    using that unfolding released_def c o
    by (auto simp: rel0 count_list_concat_replicate)
  have sup: "count_list (calls s') SuperDispose = k"
    unfolding c o by (simp add: sup0 count_list_concat_replicate)
  show ?thesis
    using d c f each sup by (simp add: o)
qed

theorem dispose_releases_each_resource_once_per_call_witness:
  "AMSynth_new exampleExternals None = Inr exampleVoice \<and>
   owned exampleVoice = [5, 10, 11, 12, 13, 16, 15] \<and>
   map_sum id calls (disposeTimes 1 exampleVoice) =
     Inr [SuperDispose, Dispose 5, Dispose 10, Dispose 11, Dispose 12, Dispose 13,
          Dispose 16, Dispose 15] \<and>
   map_sum id (released 16) (disposeTimes 1 exampleVoice) = Inr 1"
proof -
  have o: "owned exampleVoice = [5, 10, 11, 12, 13, 16, 15]"
    using example_laid_out by (rule owned_laid_out)
  have c: "calls exampleVoice = []" by (simp add: exampleVoice_def)
  obtain s' where w: "disposeTimes 1 exampleVoice = Inr s'"
    "calls s' = calls exampleVoice @
       concat (replicate 1 (SuperDispose # map Dispose (owned exampleVoice)))"
    "\<forall>r \<in> set (owned exampleVoice). released r s' = 1"
    using dispose_releases_each_resource_once_per_call [OF AMSynth_new_example, of exampleVoice "[]" 1]
    by auto
  show ?thesis
    using w by (simp add: AMSynth_new_example o c)
qed

text \<open>
  The claim as the spec words it, each owned object released exactly once across two
  calls, fails: after the second call every owned object has had \<^verbatim>\<open>dispose()\<close> called
  on it twice.
\<close>

theorem second_dispose_releases_again:
  "AMSynth_new exampleExternals None = Inr exampleVoice \<and>
   owned exampleVoice = [5, 10, 11, 12, 13, 16, 15] \<and>
   map_sum id calls (thenDo (dispose exampleVoice) dispose) =
     Inr [SuperDispose, Dispose 5, Dispose 10, Dispose 11, Dispose 12, Dispose 13,
          Dispose 16, Dispose 15,
          SuperDispose, Dispose 5, Dispose 10, Dispose 11, Dispose 12, Dispose 13,
          Dispose 16, Dispose 15] \<and>
   map_sum id (released 5) (thenDo (dispose exampleVoice) dispose) = Inr 2"
proof -
  have o: "owned exampleVoice = [5, 10, 11, 12, 13, 16, 15]"
    using example_laid_out by (rule owned_laid_out)
  have c: "calls exampleVoice = []" by (simp add: exampleVoice_def)
  show ?thesis
    by (simp add: AMSynth_new_example thenDo_def dispose_eq o c released_def)
qed



text \<open>
  C10. The published fields are aliases. In every state a live voice can reach, the fields
  \<^verbatim>\<open>oscillator\<close>, \<^verbatim>\<open>envelope\<close>, \<^verbatim>\<open>modulation\<close> and \<^verbatim>\<open>modulationEnvelope\<close> hold
  the very references the carrier and the modulator hold to their oscillator and
  envelope: four different objects, two oscillators and two envelopes. A shape parameter
  written through a published field is what the sub-voice reads through its own
  reference afterwards, every other parameter of the four objects is unchanged, and
  reading through the field and through the sub-voice gives the same.
\<close>

theorem published_fields_are_the_subvoices_objects:
  assumes "AMSynth_new ext arguments = Inr s0" and "s = run acts s0"
  shows "oscillator s = Synth_oscillator (carrier s) \<and>
     envelope s = Synth_envelope (carrier s) \<and>
     modulation s = Synth_oscillator (modulator s) \<and>
     modulationEnvelope s = Synth_envelope (modulator s) \<and>
     distinct [oscillator s, envelope s, modulation s, modulationEnvelope s] \<and>
     (\<exists>osc env modu modenv.
        nodes s (oscillator s) = Some (OmniOscillator osc) \<and>
        nodes s (envelope s) = Some (AmplitudeEnvelope env) \<and>
        nodes s (modulation s) = Some (OmniOscillator modu) \<and>
        nodes s (modulationEnvelope s) = Some (AmplitudeEnvelope modenv)) \<and>
     getParam (subvoice_field p s) k (step (SetShape p k v) s) = v \<and>
     (k' \<noteq> k \<or> q \<noteq> p \<longrightarrow>
        getParam (subvoice_field q s) k' (step (SetShape p k v) s)
          = getParam (subvoice_field q s) k' s) \<and>
     getParam (field_of p s) k s = getParam (subvoice_field p s) k s"
proof -
  have lay: "laid_out s"
    unfolding assms(2) using AMSynth_new_laid_out [OF assms(1)] by (rule run_laid_out)
  have fields: "oscillator s = Synth_oscillator (carrier s) \<and>
     envelope s = Synth_envelope (carrier s) \<and>
     modulation s = Synth_oscillator (modulator s) \<and>
     modulationEnvelope s = Synth_envelope (modulator s) \<and>
     distinct [oscillator s, envelope s, modulation s, modulationEnvelope s] \<and>
     (\<exists>osc env modu modenv.
        nodes s (oscillator s) = Some (OmniOscillator osc) \<and>
        nodes s (envelope s) = Some (AmplitudeEnvelope env) \<and>
        nodes s (modulation s) = Some (OmniOscillator modu) \<and>
        nodes s (modulationEnvelope s) = Some (AmplitudeEnvelope modenv))"
    using lay by (auto simp: laid_out_def)
  have w: "getParam (subvoice_field p s) k (step (SetShape p k v) s) = v"
    using shape_write_read(1) [OF lay, where p = p and k = k and v = v] by simp
  have o: "k' \<noteq> k \<or> q \<noteq> p \<longrightarrow>
        getParam (subvoice_field q s) k' (step (SetShape p k v) s)
          = getParam (subvoice_field q s) k' s"
    using shape_write_read(2) [OF lay, where k' = k' and k = k and q = q and p = p and v = v]
    by simp
  have e: "getParam (field_of p s) k s = getParam (subvoice_field p s) k s"
    using field_is_subvoice_field [OF lay, of p] by simp
  show ?thesis
    using fields w o e by blast
qed

theorem published_fields_are_the_subvoices_objects_witness:
  "AMSynth_new exampleExternals None = Inr exampleVoice \<and>
   envelope exampleVoice = Synth_envelope (carrier exampleVoice) \<and>
   getParam (Synth_envelope (carrier exampleVoice)) ''attack'' exampleVoice = Num 0.01 \<and>
   getParam (Synth_envelope (carrier exampleVoice)) ''attack''
     (setParam (envelope exampleVoice) ''attack'' (Num 0.2) exampleVoice) = Num 0.2 \<and>
   getParam (Synth_envelope (modulator exampleVoice)) ''attack''
     (setParam (envelope exampleVoice) ''attack'' (Num 0.2) exampleVoice) = Num 0.5"
  using published_fields_are_the_subvoices_objects [OF AMSynth_new_example,
      where s = exampleVoice and acts = "[]" and p = EnvelopeField and k = "''attack''"
        and v = "Num 0.2" and k' = "''attack''" and q = ModulationEnvelopeField]
  by (simp add: AMSynth_new_example)
     (simp add: exampleVoice_def getParam_def setParam_def getProp_def)

end
